theory Spec2Isabelle
  imports Main "HOL-Library.Word" "HOL-Library.Multiset"
begin

section \<open>Data model of ModuleList.cpp\<close>

text \<open>
  A \<open>Module\<close> object is identified by its address. A \<open>ModuleSP\<close> is a shared pointer:
  \<open>None\<close> is the empty (null) reference, \<open>Some p\<close> owns the module at address \<open>p\<close>.
  The vector \<open>m_modules\<close> only ever receives non-null references (\<open>Append\<close> and
  \<open>AppendIfNeeded\<close>, the two places that call \<open>push_back\<close>, test \<open>if (module_sp)\<close>
  first), so it is a list of module addresses. The mutex is not modelled: every
  operation runs to completion single-threaded.
\<close>

type_synonym Module_ptr = nat

type_synonym ModuleSP = "Module_ptr option"

record ModuleList =
  m_modules :: "Module_ptr list"

section \<open>Mutation and identity (lines 65-147)\<close>

definition Append :: "ModuleSP \<Rightarrow> ModuleList \<Rightarrow> ModuleList" where
  "Append module_sp ml =
     (case module_sp of
        None \<Rightarrow> ml
      | Some p \<Rightarrow> ml\<lparr>m_modules := m_modules ml @ [p]\<rparr>)"

text \<open>The scan \<open>for (pos = begin; pos != end; ++pos) if (pos->get() == module_sp.get())\<close>.\<close>

fun already_in_list :: "Module_ptr \<Rightarrow> Module_ptr list \<Rightarrow> bool" where
  "already_in_list p [] = False"
| "already_in_list p (q # qs) = (if q = p then True else already_in_list p qs)"

definition AppendIfNeeded :: "ModuleSP \<Rightarrow> ModuleList \<Rightarrow> bool \<times> ModuleList" where
  "AppendIfNeeded module_sp ml =
     (case module_sp of
        None \<Rightarrow> (False, ml)
      | Some p \<Rightarrow>
          if already_in_list p (m_modules ml) then (False, ml)
          else (True, ml\<lparr>m_modules := m_modules ml @ [p]\<rparr>))"

text \<open>The scan of \<open>Remove\<close>: the first entry with the same address is erased.\<close>

fun erase_first :: "Module_ptr \<Rightarrow> Module_ptr list \<Rightarrow> bool \<times> Module_ptr list" where
  "erase_first p [] = (False, [])"
| "erase_first p (q # qs) =
     (if q = p then (True, qs)
      else (case erase_first p qs of (b, qs') \<Rightarrow> (b, q # qs')))"

definition Remove :: "ModuleSP \<Rightarrow> ModuleList \<Rightarrow> bool \<times> ModuleList" where
  "Remove module_sp ml =
     (case module_sp of
        None \<Rightarrow> (False, ml)
      | Some p \<Rightarrow>
          (case erase_first p (m_modules ml) of
             (b, ms) \<Rightarrow> (b, ml\<lparr>m_modules := ms\<rparr>)))"

text \<open>
  \<open>RemoveOrphans\<close>. \<open>pos->unique()\<close> asks whether the use count of the shared pointer
  is one. The use count of a module is the number of shared pointers that own it:
  those stored in this vector, plus those held anywhere outside of it (\<open>outside p\<close>).
  The loop walks the vector in place: \<open>kept\<close> is the part before \<open>pos\<close>, the third
  argument is the part from \<open>pos\<close> on; erasing an entry destroys that shared pointer.
  \<open>remove_count\<close> is a \<open>size_t\<close> bounded by the length of the vector.
\<close>

definition use_count :: "(Module_ptr \<Rightarrow> nat) \<Rightarrow> Module_ptr list \<Rightarrow> Module_ptr \<Rightarrow> nat" where
  "use_count outside ms p = count_list ms p + outside p"

definition unique :: "(Module_ptr \<Rightarrow> nat) \<Rightarrow> Module_ptr list \<Rightarrow> Module_ptr \<Rightarrow> bool" where
  "unique outside ms p = (use_count outside ms p = 1)"

fun RemoveOrphans_loop ::
  "(Module_ptr \<Rightarrow> nat) \<Rightarrow> Module_ptr list \<Rightarrow> Module_ptr list \<Rightarrow> nat \<Rightarrow> nat \<times> Module_ptr list" where
  "RemoveOrphans_loop outside kept [] remove_count = (remove_count, kept)"
| "RemoveOrphans_loop outside kept (p # ps) remove_count =
     (if unique outside (kept @ p # ps) p
      then RemoveOrphans_loop outside kept ps (remove_count + 1)
      else RemoveOrphans_loop outside (kept @ [p]) ps remove_count)"

definition RemoveOrphans :: "(Module_ptr \<Rightarrow> nat) \<Rightarrow> ModuleList \<Rightarrow> nat \<times> ModuleList" where
  "RemoveOrphans outside ml =
     (case RemoveOrphans_loop outside [] (m_modules ml) 0 of
        (remove_count, ms) \<Rightarrow> (remove_count, ml\<lparr>m_modules := ms\<rparr>))"

text \<open>
  \<open>Remove (ModuleList &module_list)\<close>. The argument is passed by reference and may be
  the receiver itself, so the registries live in a store, addressed by the object's
  address: \<open>this\<close> is the receiver, \<open>module_list\<close> the argument.

  The loop reads \<open>end\<close> once, before the first iteration (line 140), and then walks
  \<open>pos\<close> from \<open>begin\<close> to that \<open>end\<close>; \<open>*pos\<close> is read from the argument's vector as it is
  at that iteration. When the argument is another registry its vector does not change
  and every position read is an entry. When the argument is the receiver, each
  successful \<open>Remove (*pos)\<close> erases from the vector that \<open>pos\<close> walks, and \<open>pos\<close> goes on
  to positions behind the shortened vector, where the element has been destroyed. What
  a read of such a position yields is not fixed by this file; it is the parameter
  \<open>vacated\<close>, by position. The loop is given by the position and the number of
  iterations left.
\<close>

type_synonym registry_ref = nat

type_synonym registries = "registry_ref \<Rightarrow> ModuleList"

definition read_pos :: "(nat \<Rightarrow> ModuleSP) \<Rightarrow> ModuleList \<Rightarrow> nat \<Rightarrow> ModuleSP" where
  "read_pos vacated ml pos =
     (if pos < length (m_modules ml) then Some (m_modules ml ! pos) else vacated pos)"

fun Remove_list_loop ::
  "(nat \<Rightarrow> ModuleSP) \<Rightarrow> registry_ref \<Rightarrow> registry_ref \<Rightarrow> nat \<Rightarrow> nat \<Rightarrow> registries \<Rightarrow> nat
     \<Rightarrow> nat \<times> registries" where
  "Remove_list_loop vacated this module_list pos 0 regs num_removed = (num_removed, regs)"
| "Remove_list_loop vacated this module_list pos (Suc left) regs num_removed =
     (case Remove (read_pos vacated (regs module_list) pos) (regs this) of
        (b, ml') \<Rightarrow>
          Remove_list_loop vacated this module_list (pos + 1) left (regs(this := ml'))
            (if b then num_removed + 1 else num_removed))"

definition Remove_list ::
  "(nat \<Rightarrow> ModuleSP) \<Rightarrow> registry_ref \<Rightarrow> registry_ref \<Rightarrow> registries \<Rightarrow> nat \<times> registries" where
  "Remove_list vacated this module_list regs =
     Remove_list_loop vacated this module_list 0 (length (m_modules (regs module_list))) regs 0"

text \<open>
  Concrete inputs: a store with registry \<open>r\<close> at address 100 and registry \<open>s\<close> at
  address 200; a vacated position that reads as the empty reference, and one that
  still reads as the module it held last.
\<close>

definition two_registries :: "Module_ptr list \<Rightarrow> Module_ptr list \<Rightarrow> registries" where
  "two_registries r s a = (if a = 100 then \<lparr>m_modules = r\<rparr> else \<lparr>m_modules = s\<rparr>)"

definition vacated_empty :: "nat \<Rightarrow> ModuleSP" where
  "vacated_empty pos = None"

definition vacated_stale :: "Module_ptr \<Rightarrow> nat \<Rightarrow> ModuleSP" where
  "vacated_stale p pos = Some p"

section \<open>Indexed access (lines 166-183)\<close>

text \<open>\<open>idx\<close> is a \<open>uint32_t\<close>, compared with the \<open>size_t\<close> size of the vector.\<close>

definition GetModulePointerAtIndex :: "32 word \<Rightarrow> ModuleList \<Rightarrow> Module_ptr option" where
  "GetModulePointerAtIndex idx ml =
     (if unat idx < length (m_modules ml) then Some (m_modules ml ! unat idx) else None)"

definition GetModuleAtIndex :: "32 word \<Rightarrow> ModuleList \<Rightarrow> ModuleSP" where
  "GetModuleAtIndex idx ml =
     (if unat idx < length (m_modules ml) then Some (m_modules ml ! unat idx) else None)"

definition GetSize :: "ModuleList \<Rightarrow> nat" where
  "GetSize ml = length (m_modules ml)"

section \<open>Call sequences\<close>

text \<open>\<open>AppendIfNeeded\<close> called \<open>n\<close> times in a row with the same reference.\<close>

fun AppendIfNeeded_times :: "nat \<Rightarrow> ModuleSP \<Rightarrow> ModuleList \<Rightarrow> bool list \<times> ModuleList" where
  "AppendIfNeeded_times 0 module_sp ml = ([], ml)"
| "AppendIfNeeded_times (Suc n) module_sp ml =
     (case AppendIfNeeded module_sp ml of
        (b, ml') \<Rightarrow>
          (case AppendIfNeeded_times n module_sp ml' of
             (bs, ml'') \<Rightarrow> (b # bs, ml'')))"

text \<open>
  A sequence of \<open>Append\<close> and \<open>Remove\<close> calls; \<open>run_calls\<close> returns the number of
  \<open>Remove\<close> calls that returned true and the final registry.
\<close>

datatype call = CallAppend ModuleSP | CallRemove ModuleSP

fun run_calls :: "call list \<Rightarrow> ModuleList \<Rightarrow> nat \<times> ModuleList" where
  "run_calls [] ml = (0, ml)"
| "run_calls (CallAppend sp # cs) ml = run_calls cs (Append sp ml)"
| "run_calls (CallRemove sp # cs) ml =
     (case Remove sp ml of
        (b, ml') \<Rightarrow>
          (case run_calls cs ml' of
             (k, ml'') \<Rightarrow> ((if b then 1 else 0) + k, ml'')))"

fun is_Append :: "call \<Rightarrow> bool" where
  "is_Append (CallAppend sp) = True"
| "is_Append (CallRemove sp) = False"

fun is_Append_nonnull :: "call \<Rightarrow> bool" where
  "is_Append_nonnull (CallAppend sp) = (sp \<noteq> None)"
| "is_Append_nonnull (CallRemove sp) = False"

definition no_outside_holder :: "Module_ptr \<Rightarrow> nat" where
  "no_outside_holder p = 0"

section \<open>Broadcast queries (lines 185-290, 354-373, 514-525)\<close>

text \<open>
  The searches inside one module belong to class \<open>Module\<close>, whose code is not part of
  this file. Each is a parameter here: a function from the module and the caller's
  result list to the result list after the call (the search key, which the registry
  only passes through, is part of the parameter). \<open>GetSize\<close> of a result list is its
  length; a function declared \<open>uint32_t\<close> returns it cut to 32 bits, and differences
  are taken in \<open>size_t\<close>.
\<close>

type_synonym 'r Module_search = "Module_ptr \<Rightarrow> 'r list \<Rightarrow> 'r list"

definition FindFunctions :: "'r Module_search \<Rightarrow> bool \<Rightarrow> 'r list \<Rightarrow> ModuleList \<Rightarrow> 32 word \<times> 'r list" where
  "FindFunctions Module_FindFunctions append_flag sc_list ml =
     (let sc_list1 = (if \<not> append_flag then [] else sc_list);
          sc_list2 = fold Module_FindFunctions (m_modules ml) sc_list1
      in (of_nat (length sc_list2), sc_list2))"

definition FindCompileUnits :: "'r Module_search \<Rightarrow> bool \<Rightarrow> 'r list \<Rightarrow> ModuleList \<Rightarrow> 32 word \<times> 'r list" where
  "FindCompileUnits Module_FindCompileUnits append_flag sc_list ml =
     (let sc_list1 = (if \<not> append_flag then [] else sc_list);
          sc_list2 = fold Module_FindCompileUnits (m_modules ml) sc_list1
      in (of_nat (length sc_list2), sc_list2))"

text \<open>
  Both overloads of \<open>FindGlobalVariables\<close> (by name, by regular expression) have this
  body; \<open>append\<close> and \<open>max_matches\<close> are handed to every module.
\<close>

definition FindGlobalVariables ::
  "(Module_ptr \<Rightarrow> bool \<Rightarrow> 32 word \<Rightarrow> 'v list \<Rightarrow> 'v list) \<Rightarrow> bool \<Rightarrow> 32 word \<Rightarrow> 'v list \<Rightarrow> ModuleList
     \<Rightarrow> 32 word \<times> 'v list" where
  "FindGlobalVariables Module_FindGlobalVariables append_flag max_matches variable_list ml =
     (let initial_size = (of_nat (length variable_list) :: 64 word);
          variable_list2 =
            fold (\<lambda>p. Module_FindGlobalVariables p append_flag max_matches) (m_modules ml) variable_list
      in (ucast ((of_nat (length variable_list2) :: 64 word) - initial_size), variable_list2))"

definition FindSymbolsWithNameAndType ::
  "'r Module_search \<Rightarrow> 'r list \<Rightarrow> bool \<Rightarrow> ModuleList \<Rightarrow> 64 word \<times> 'r list" where
  "FindSymbolsWithNameAndType Module_FindSymbolsWithNameAndType sc_list append_flag ml =
     (let sc_list1 = (if \<not> append_flag then [] else sc_list);
          initial_size = (of_nat (length sc_list1) :: 64 word);
          sc_list2 = fold Module_FindSymbolsWithNameAndType (m_modules ml) sc_list1
      in (of_nat (length sc_list2) - initial_size, sc_list2))"

definition FindSymbolsMatchingRegExAndType ::
  "'r Module_search \<Rightarrow> 'r list \<Rightarrow> bool \<Rightarrow> ModuleList \<Rightarrow> 64 word \<times> 'r list" where
  "FindSymbolsMatchingRegExAndType Module_FindSymbolsMatchingRegExAndType sc_list append_flag ml =
     (let sc_list1 = (if \<not> append_flag then [] else sc_list);
          initial_size = (of_nat (length sc_list1) :: 64 word);
          sc_list2 = fold Module_FindSymbolsMatchingRegExAndType (m_modules ml) sc_list1
      in (of_nat (length sc_list2) - initial_size, sc_list2))"

definition ResolveSymbolContextsForFileSpec ::
  "'r Module_search \<Rightarrow> 'r list \<Rightarrow> ModuleList \<Rightarrow> 32 word \<times> 'r list" where
  "ResolveSymbolContextsForFileSpec Module_ResolveSymbolContextsForFileSpec sc_list ml =
     (let sc_list2 = fold Module_ResolveSymbolContextsForFileSpec (m_modules ml) sc_list
      in (of_nat (length sc_list2), sc_list2))"

text \<open>A module whose search finds one result (named by the module's address) and appends it.\<close>

definition one_match :: "nat Module_search" where
  "one_match p sc_list = sc_list @ [p]"

text \<open>
  \<open>FindTypes\<close>. The search of one module returns its number of matches (a \<open>uint32_t\<close>)
  and the type list after the call; \<open>sc_module_sp\<close> is the field \<open>sc.module_sp\<close> of the
  symbol context. \<open>total_matches\<close> is a \<open>uint32_t\<close>.
\<close>

type_synonym 't Module_FindTypes = "Module_ptr \<Rightarrow> 32 word \<Rightarrow> 't list \<Rightarrow> 32 word \<times> 't list"

fun FindTypes_loop ::
  "'t Module_FindTypes \<Rightarrow> ModuleSP \<Rightarrow> 32 word \<Rightarrow> Module_ptr list \<Rightarrow> 32 word \<Rightarrow> 't list
     \<Rightarrow> 32 word \<times> 't list" where
  "FindTypes_loop Module_FindTypes sc_module_sp max_matches [] total_matches types =
     (total_matches, types)"
| "FindTypes_loop Module_FindTypes sc_module_sp max_matches (p # ps) total_matches types =
     (case (if sc_module_sp = None \<or> sc_module_sp = Some p
            then (case Module_FindTypes p max_matches types of
                    (n, types') \<Rightarrow> (total_matches + n, types'))
            else (total_matches, types)) of
        (total_matches', types') \<Rightarrow>
          if total_matches' \<ge> max_matches then (total_matches', types')
          else FindTypes_loop Module_FindTypes sc_module_sp max_matches ps total_matches' types')"

definition FindTypes ::
  "'t Module_FindTypes \<Rightarrow> ModuleSP \<Rightarrow> bool \<Rightarrow> 32 word \<Rightarrow> 't list \<Rightarrow> ModuleList \<Rightarrow> 32 word \<times> 't list" where
  "FindTypes Module_FindTypes sc_module_sp append_flag max_matches types ml =
     FindTypes_loop Module_FindTypes sc_module_sp max_matches (m_modules ml) 0
       (if \<not> append_flag then [] else types)"

text \<open>
  The modules whose \<open>FindTypes\<close> the loop calls, in order: the same walk as
  \<open>FindTypes_loop\<close>, recording each module asked.
\<close>

fun FindTypes_asked ::
  "'t Module_FindTypes \<Rightarrow> ModuleSP \<Rightarrow> 32 word \<Rightarrow> Module_ptr list \<Rightarrow> 32 word \<Rightarrow> 't list
     \<Rightarrow> Module_ptr list" where
  "FindTypes_asked Module_FindTypes sc_module_sp max_matches [] total_matches types = []"
| "FindTypes_asked Module_FindTypes sc_module_sp max_matches (p # ps) total_matches types =
     (if sc_module_sp = None \<or> sc_module_sp = Some p
      then (case Module_FindTypes p max_matches types of
              (n, types') \<Rightarrow>
                p # (if total_matches + n \<ge> max_matches then []
                     else FindTypes_asked Module_FindTypes sc_module_sp max_matches ps
                            (total_matches + n) types'))
      else (if total_matches \<ge> max_matches then []
            else FindTypes_asked Module_FindTypes sc_module_sp max_matches ps total_matches types))"

text \<open>Asking every module of a list, with no test in between, and adding up the counts.\<close>

fun ask_all :: "'t Module_FindTypes \<Rightarrow> 32 word \<Rightarrow> Module_ptr list \<Rightarrow> 32 word \<Rightarrow> 't list \<Rightarrow> 32 word \<times> 't list" where
  "ask_all Module_FindTypes max_matches [] total_matches types = (total_matches, types)"
| "ask_all Module_FindTypes max_matches (p # ps) total_matches types =
     (case Module_FindTypes p max_matches types of
        (n, types') \<Rightarrow> ask_all Module_FindTypes max_matches ps (total_matches + n) types')"

text \<open>A module whose type search finds one type (named by the module's address).\<close>

definition one_type :: "nat Module_FindTypes" where
  "one_type p max_matches types = (1, types @ [p])"

section \<open>The shared module list and GetSharedModule (lines 292-306, 545-781)\<close>

text \<open>
  The classes \<open>UUID\<close>, \<open>FileSpec\<close>, \<open>ArchSpec\<close>, \<open>TimeValue\<close>, \<open>ModuleSpec\<close>, \<open>Module\<close>,
  \<open>Error\<close> and \<open>Symbols\<close> are declared outside this file; the types below hold what
  \<open>GetSharedModule\<close> reads of them.
\<close>

text \<open>
  Modelled from the spec: the fields of a module descriptor, whose class \<open>ModuleSpec\<close> is
  missing (section 3: "optional unique content identifier, optional on-disk path,
  optional platform-specific path, optional architecture tag"). An invalid \<open>UUID\<close>,
  \<open>ArchSpec\<close> or \<open>TimeValue\<close> (\<open>IsValid()\<close> false) is \<open>None\<close>; \<open>GetUUIDPtr\<close> is null
  exactly when the identifier is invalid; a \<open>FileSpec\<close> is its path, and the empty path
  is the \<open>FileSpec\<close> that converts to false.
\<close>

type_synonym UUID = "nat option"

type_synonym ArchSpec = "nat option"

type_synonym TimeValue = "nat option"

type_synonym FileSpec = string

record ModuleSpec =
  spec_file :: FileSpec
  spec_platform_file :: FileSpec
  spec_arch :: ArchSpec
  spec_uuid :: UUID

text \<open>
  Modelled from the spec: the attributes of a \<open>Module\<close> object, whose class is missing
  (section 3: "unique content identifier (may be absent), canonical file path,
  platform-specific file path, architecture tag, modification timestamp, and a handle
  to its object-file provider"): what \<open>GetFileSpec\<close>, \<open>GetPlatformFileSpec\<close>,
  \<open>GetArchitecture\<close>, \<open>GetUUID\<close> and \<open>GetModificationTime\<close> return, and whether
  \<open>GetObjectFile\<close> is non-null.
\<close>

record Module =
  mod_file :: FileSpec
  mod_platform_file :: FileSpec
  mod_arch :: ArchSpec
  mod_uuid :: UUID
  mod_time :: TimeValue
  mod_object_file :: bool

text \<open>
  Modelled from the spec: the collaborators of section 6, which \<open>GetSharedModule\<close> only
  reads and which are left open here: \<open>FileSpec::GetModificationTime\<close>,
  \<open>FileSpec::Exists\<close>, the object that \<open>new Module (module_spec)\<close> constructs, and
  \<open>Symbols::LocateExecutableObjectFile\<close> ("given a ModuleSpec, returns a best-guess
  file-system path").
\<close>

record Host =
  file_mod_time :: "FileSpec \<Rightarrow> TimeValue"
  file_exists :: "FileSpec \<Rightarrow> bool"
  new_Module :: "ModuleSpec \<Rightarrow> Module"
  LocateExecutableObjectFile :: "ModuleSpec \<Rightarrow> FileSpec"

text \<open>
  Modelled from the spec: \<open>Module::MatchesModuleSpec\<close>, which is not in this file
  (section 4.3: "if the spec carries a unique identifier, match on identifier equality
  alone; otherwise match on (path equality AND architecture compatibility)"). An
  architecture is taken to be compatible when the spec names none or names the
  module's own.
\<close>

definition MatchesModuleSpec :: "Module \<Rightarrow> ModuleSpec \<Rightarrow> bool" where
  "MatchesModuleSpec m module_spec =
     (case spec_uuid module_spec of
        Some u \<Rightarrow> mod_uuid m = Some u
      | None \<Rightarrow>
          mod_file m = spec_file module_spec
          \<and> (spec_arch module_spec = None \<or> mod_arch m = spec_arch module_spec))"

text \<open>
  The process-wide state: the static \<open>g_shared_module_list\<close>, the \<open>Module\<close> objects by
  address, and the address that the next \<open>new Module\<close> returns (an address is never
  handed out twice).
\<close>

record SharedModules =
  g_shared_module_list :: ModuleList
  modules :: "Module_ptr \<Rightarrow> Module"
  next_module :: Module_ptr

definition FindModules ::
  "(Module_ptr \<Rightarrow> Module) \<Rightarrow> ModuleSpec \<Rightarrow> ModuleList \<Rightarrow> ModuleList \<Rightarrow> nat \<times> ModuleList" where
  "FindModules objs module_spec matching_module_list ml =
     (let existing_matches = GetSize matching_module_list;
          matching_module_list2 =
            fold (\<lambda>p matching. if MatchesModuleSpec (objs p) module_spec
                                then Append (Some p) matching else matching)
              (m_modules ml) matching_module_list
      in (GetSize matching_module_list2 - existing_matches, matching_module_list2))"

text \<open>
  The \<open>Error\<close> that \<open>GetSharedModule\<close> returns: success, or one of the messages of lines
  696, 698, 703, 760, 762, 772 and 774 with the values printed into it.
\<close>

datatype Error =
    Success
  | DoesNotContainArchAndUUID string ArchSpec nat
  | DoesNotContainArch string ArchSpec
  | DoesNotExist string
  | UnableToOpenArch ArchSpec string
  | UnableToOpen string
  | CannotLocateUUID nat
  | CannotLocate

text \<open>
  The loop of lines 613-634 over the entries of \<open>matching_module_list\<close>, in index order.
  An out-parameter pointer is an option: \<open>None\<close> when the caller passed \<open>NULL\<close>,
  \<open>Some v\<close> when it points to a variable holding \<open>v\<close>. The first component of the
  result tells whether the loop left the function by \<open>return error\<close> (line 627).
\<close>

fun search_matching ::
  "Host \<Rightarrow> ModuleSpec \<Rightarrow> (Module_ptr \<Rightarrow> Module) \<Rightarrow> Module_ptr list \<Rightarrow> ModuleList \<Rightarrow> ModuleSP option
     \<Rightarrow> bool \<times> ModuleSP \<times> ModuleList \<times> ModuleSP option" where
  "search_matching host module_spec objs [] shared_module_list old_module_sp_ptr =
     (False, None, shared_module_list, old_module_sp_ptr)"
| "search_matching host module_spec objs (c # cs) shared_module_list old_module_sp_ptr =
     (if spec_uuid module_spec \<noteq> None then (False, Some c, shared_module_list, old_module_sp_ptr)
      else if spec_file module_spec \<noteq> []
              \<and> file_mod_time host (spec_file module_spec) \<noteq> None
              \<and> file_mod_time host (spec_file module_spec) = mod_time (objs c)
      then (True, Some c, shared_module_list, old_module_sp_ptr)
      else search_matching host module_spec objs cs
             (snd (Remove (Some c) shared_module_list))
             (if old_module_sp_ptr = Some None then Some (Some c) else old_module_sp_ptr))"

record GetSharedModule_result =
  res_error :: Error
  res_module_sp :: ModuleSP
  res_old_module_sp :: "ModuleSP option"
  res_did_create :: "bool option"
  res_shared :: SharedModules

definition new_module :: "Host \<Rightarrow> ModuleSpec \<Rightarrow> SharedModules \<Rightarrow> Module_ptr \<times> SharedModules" where
  "new_module host module_spec st =
     (next_module st,
      st\<lparr>modules := (modules st)(next_module st := new_Module host module_spec),
         next_module := next_module st + 1\<rparr>)"

text \<open>Lines 668-780: the path found by \<open>Symbols::LocateExecutableObjectFile\<close>.\<close>

definition locate_and_create ::
  "Host \<Rightarrow> ModuleSpec \<Rightarrow> ModuleSP option \<Rightarrow> bool option \<Rightarrow> SharedModules \<Rightarrow> GetSharedModule_result" where
  "locate_and_create host module_spec old_module_sp_ptr did_create_ptr st =
     (let module_file_spec = spec_file module_spec;
          file_spec = LocateExecutableObjectFile host module_spec
      in
      if file_spec \<noteq> module_file_spec then
        if \<not> file_exists host file_spec then
          (let path = (if file_spec = [] then module_file_spec else file_spec);
               err =
                 (if file_exists host file_spec then
                    (if spec_arch module_spec \<noteq> None then
                       (case spec_uuid module_spec of
                          Some u \<Rightarrow> DoesNotContainArchAndUUID path (spec_arch module_spec) u
                        | None \<Rightarrow> DoesNotContainArch path (spec_arch module_spec))
                     else Success)
                  else DoesNotExist path)
           in \<lparr>res_error = err, res_module_sp = None, res_old_module_sp = old_module_sp_ptr,
                res_did_create = did_create_ptr, res_shared = st\<rparr>)
        else
          (let platform_module_spec =
                 module_spec\<lparr>spec_file := file_spec, spec_platform_file := file_spec\<rparr>;
               (num, matching_module_list) =
                 FindModules (modules st) platform_module_spec \<lparr>m_modules = []\<rparr>
                   (g_shared_module_list st);
               module_sp1 = (if num > 0 then GetModuleAtIndex 0 matching_module_list else None);
               stale =
                 (case module_sp1 of
                    None \<Rightarrow> False
                  | Some c \<Rightarrow>
                      spec_uuid platform_module_spec = None
                      \<and> file_mod_time host file_spec \<noteq> None
                      \<and> file_mod_time host file_spec \<noteq> mod_time (modules st c));
               old2 = (if stale then map_option (\<lambda>_. module_sp1) old_module_sp_ptr
                       else old_module_sp_ptr);
               st2 = (if stale
                      then st\<lparr>g_shared_module_list := snd (Remove module_sp1 (g_shared_module_list st))\<rparr>
                      else st);
               module_sp2 = (if stale then None else module_sp1)
           in
           if module_sp2 = None then
             (case new_module host platform_module_spec st2 of
                (p, st3) \<Rightarrow>
                  if mod_object_file (modules st3 p) then
                    \<lparr>res_error = Success, res_module_sp = Some p, res_old_module_sp = old2,
                     res_did_create = map_option (\<lambda>_. True) did_create_ptr,
                     res_shared = st3\<lparr>g_shared_module_list :=
                                     Append (Some p) (g_shared_module_list st3)\<rparr>\<rparr>
                  else
                    \<lparr>res_error =
                       (if file_spec \<noteq> [] then
                          (if spec_arch module_spec \<noteq> None
                           then UnableToOpenArch (spec_arch module_spec) file_spec
                           else UnableToOpen file_spec)
                        else
                          (case spec_uuid module_spec of
                             Some u \<Rightarrow> CannotLocateUUID u
                           | None \<Rightarrow> CannotLocate)),
                     res_module_sp = Some p, res_old_module_sp = old2,
                     res_did_create = did_create_ptr, res_shared = st3\<rparr>)
           else
             \<lparr>res_error = Success, res_module_sp = module_sp2, res_old_module_sp = old2,
              res_did_create = did_create_ptr, res_shared = st2\<rparr>)
      else
        \<lparr>res_error = Success, res_module_sp = None, res_old_module_sp = old_module_sp_ptr,
         res_did_create = did_create_ptr, res_shared = st\<rparr>)"

text \<open>Lines 638-666: the module constructed from the spec as it was passed in.\<close>

definition create_from_spec ::
  "Host \<Rightarrow> ModuleSpec \<Rightarrow> ModuleSP option \<Rightarrow> bool option \<Rightarrow> SharedModules \<Rightarrow> GetSharedModule_result" where
  "create_from_spec host module_spec old_module_sp_ptr did_create_ptr st =
     (case new_module host module_spec st of
        (p, st1) \<Rightarrow>
          if mod_object_file (modules st1 p) then
            if spec_uuid module_spec \<noteq> None \<and> spec_uuid module_spec \<noteq> mod_uuid (modules st1 p)
            then locate_and_create host module_spec old_module_sp_ptr did_create_ptr st1
            else
              \<lparr>res_error = Success, res_module_sp = Some p, res_old_module_sp = old_module_sp_ptr,
               res_did_create = map_option (\<lambda>_. True) did_create_ptr,
               res_shared = st1\<lparr>g_shared_module_list :=
                               Append (Some p) (g_shared_module_list st1)\<rparr>\<rparr>
          else locate_and_create host module_spec old_module_sp_ptr did_create_ptr st1)"

text \<open>
  Lines 609-635: the search of the shared list when \<open>always_create\<close> is false. The
  guard \<open>num_matching_modules > 0\<close> is the loop's own bound.
\<close>

definition initial_search ::
  "Host \<Rightarrow> ModuleSpec \<Rightarrow> ModuleSP option \<Rightarrow> SharedModules
     \<Rightarrow> bool \<times> ModuleSP \<times> ModuleList \<times> ModuleSP option" where
  "initial_search host module_spec old_module_sp_ptr st =
     (case FindModules (modules st) module_spec \<lparr>m_modules = []\<rparr> (g_shared_module_list st) of
        (num_matching_modules, matching_module_list) \<Rightarrow>
          search_matching host module_spec (modules st)
            (m_modules matching_module_list) (g_shared_module_list st) old_module_sp_ptr)"

definition GetSharedModule ::
  "Host \<Rightarrow> ModuleSpec \<Rightarrow> ModuleSP option \<Rightarrow> bool option \<Rightarrow> bool \<Rightarrow> SharedModules
     \<Rightarrow> GetSharedModule_result" where
  "GetSharedModule host module_spec old_module_sp_ptr did_create_ptr always_create st =
     (let did_create0 = map_option (\<lambda>_. False) did_create_ptr;
          old0 = map_option (\<lambda>_. None) old_module_sp_ptr;
          (returned, module_sp, shared_module_list, old1) =
            (if always_create = False then initial_search host module_spec old0 st
             else (False, None, g_shared_module_list st, old0));
          st1 = st\<lparr>g_shared_module_list := shared_module_list\<rparr>
      in
      if returned \<or> module_sp \<noteq> None then
        \<lparr>res_error = Success, res_module_sp = module_sp, res_old_module_sp = old1,
         res_did_create = did_create0, res_shared = st1\<rparr>
      else create_from_spec host module_spec old1 did_create0 st1)"

text \<open>
  Concrete inputs. A module for \<open>/bin/ls\<close> with a given modification time; a spec that
  names the path only, and one that also carries the identifier 7; a host where every
  file exists with modification time 2 and opens as an object file with identifier 7,
  and where \<open>LocateExecutableObjectFile\<close> returns the path it was given.
\<close>

definition ls_module :: "TimeValue \<Rightarrow> Module" where
  "ls_module t =
     \<lparr>mod_file = ''/bin/ls'', mod_platform_file = ''/bin/ls'', mod_arch = Some 1,
      mod_uuid = Some 7, mod_time = t, mod_object_file = True\<rparr>"

definition ls_spec :: ModuleSpec where
  "ls_spec =
     \<lparr>spec_file = ''/bin/ls'', spec_platform_file = ''/bin/ls'', spec_arch = None,
      spec_uuid = None\<rparr>"

definition ls_uuid_spec :: ModuleSpec where
  "ls_uuid_spec = ls_spec\<lparr>spec_uuid := Some 7\<rparr>"

definition ls_host :: Host where
  "ls_host =
     \<lparr>file_mod_time = (\<lambda>f. Some 2), file_exists = (\<lambda>f. True),
      new_Module = (\<lambda>s. \<lparr>mod_file = spec_file s, mod_platform_file = spec_platform_file s,
                             mod_arch = Some 1, mod_uuid = Some 7, mod_time = Some 2,
                             mod_object_file = True\<rparr>),
      LocateExecutableObjectFile = spec_file\<rparr>"

text \<open>Two cached modules for \<open>/bin/ls\<close>, at addresses 10 and 20, both loaded at time \<open>t\<close>.\<close>

definition two_cached :: "TimeValue \<Rightarrow> SharedModules" where
  "two_cached t =
     \<lparr>g_shared_module_list = \<lparr>m_modules = [10, 20]\<rparr>, modules = (\<lambda>p. ls_module t),
      next_module = 30\<rparr>"

text \<open>
  A spec with identifier 7 and a path where nothing opens; the host's
  \<open>LocateExecutableObjectFile\<close> answers \<open>/bin/ls\<close>, which opens as an object file whose
  identifier is 8. The shared list is empty.
\<close>

definition moved_spec :: ModuleSpec where
  "moved_spec =
     \<lparr>spec_file = ''/old/ls'', spec_platform_file = ''/old/ls'', spec_arch = None,
      spec_uuid = Some 7\<rparr>"

definition moved_host :: Host where
  "moved_host =
     \<lparr>file_mod_time = (\<lambda>f. Some 2), file_exists = (\<lambda>f. True),
      new_Module = (\<lambda>s. \<lparr>mod_file = spec_file s, mod_platform_file = spec_platform_file s,
                             mod_arch = Some 1, mod_uuid = Some 8, mod_time = Some 2,
                             mod_object_file = (spec_file s = ''/bin/ls'')\<rparr>),
      LocateExecutableObjectFile = (\<lambda>s. ''/bin/ls'')\<rparr>"

definition empty_cache :: SharedModules where
  "empty_cache =
     \<lparr>g_shared_module_list = \<lparr>m_modules = []\<rparr>, modules = (\<lambda>p. ls_module None),
      next_module = 0\<rparr>"

section \<open>Properties of the mutation operations\<close>

lemma already_in_list_set: "already_in_list p ms = (p \<in> set ms)"
  by (induction ms) auto

lemma erase_first_remove1: "erase_first p ms = (p \<in> set ms, remove1 p ms)"
  by (induction ms) auto

lemma Remove_Some: "Remove (Some p) ml = (p \<in> set (m_modules ml), ml\<lparr>m_modules := remove1 p (m_modules ml)\<rparr>)"
  by (simp add: Remove_def erase_first_remove1)

text \<open>
  C10. \<open>AppendIfNeeded\<close> and \<open>Remove\<close> called with a null module reference return false
  and leave the registry as it was.
\<close>

theorem null_reference_is_noop:
  "AppendIfNeeded None ml = (False, ml) \<and> Remove None ml = (False, ml)"
  by (simp add: AppendIfNeeded_def Remove_def)

text \<open>
  C9. \<open>GetModuleAtIndex\<close> and \<open>GetModulePointerAtIndex\<close> return the entry at position
  \<open>idx\<close> when \<open>idx\<close> is below the length of the registry, and the empty reference
  (the null pointer) otherwise; they are total.
\<close>

theorem GetModuleAtIndex_total:
  "GetModuleAtIndex idx ml =
     (if unat idx < GetSize ml then Some (m_modules ml ! unat idx) else None)
   \<and> GetModulePointerAtIndex idx ml =
     (if unat idx < GetSize ml then Some (m_modules ml ! unat idx) else None)"
  by (simp add: GetModuleAtIndex_def GetModulePointerAtIndex_def GetSize_def)

theorem GetModuleAtIndex_total_witness:
  "GetModuleAtIndex 1 \<lparr>m_modules = [10, 20, 30]\<rparr> = Some 20
   \<and> GetModulePointerAtIndex 1 \<lparr>m_modules = [10, 20, 30]\<rparr> = Some 20
   \<and> GetModuleAtIndex 3 \<lparr>m_modules = [10, 20, 30]\<rparr> = None
   \<and> GetModulePointerAtIndex 3 \<lparr>m_modules = [10, 20, 30]\<rparr> = None"
  using GetModuleAtIndex_total [of 1 "\<lparr>m_modules = [10, 20, 30]\<rparr>"]
    GetModuleAtIndex_total [of 3 "\<lparr>m_modules = [10, 20, 30]\<rparr>"]
  by (simp add: GetSize_def)

lemma AppendIfNeeded_Some:
  "AppendIfNeeded (Some p) ml =
     (if p \<in> set (m_modules ml) then (False, ml) else (True, ml\<lparr>m_modules := m_modules ml @ [p]\<rparr>))"
  by (simp add: AppendIfNeeded_def already_in_list_set)

lemma AppendIfNeeded_times_present:
  "p \<in> set (m_modules ml) \<Longrightarrow> AppendIfNeeded_times n (Some p) ml = (replicate n False, ml)"
  by (induction n) (simp_all add: AppendIfNeeded_Some)

text \<open>
  C2 (amended). For a non-null reference \<open>M\<close> and a registry that does not hold \<open>M\<close>
  yet, \<open>N \<ge> 1\<close> calls of \<open>AppendIfNeeded(M)\<close> in a row return true on the first call
  and false on the other \<open>N - 1\<close>, and leave the registry with \<open>M\<close> appended once;
  for a registry that already holds \<open>M\<close>, every call returns false and the registry
  is unchanged.
\<close>

theorem AppendIfNeeded_idempotent:
  "(p \<notin> set (m_modules ml) \<longrightarrow>
      AppendIfNeeded_times (Suc n) (Some p) ml =
        (True # replicate n False, ml\<lparr>m_modules := m_modules ml @ [p]\<rparr>))
   \<and> (p \<in> set (m_modules ml) \<longrightarrow>
      AppendIfNeeded_times (Suc n) (Some p) ml = (replicate (Suc n) False, ml))"
proof (intro conjI impI)
  assume fresh: "p \<notin> set (m_modules ml)"
  have "p \<in> set (m_modules (ml\<lparr>m_modules := m_modules ml @ [p]\<rparr>))" by simp
  from AppendIfNeeded_times_present [OF this, of n] fresh
  show "AppendIfNeeded_times (Suc n) (Some p) ml =
        (True # replicate n False, ml\<lparr>m_modules := m_modules ml @ [p]\<rparr>)"
    by (simp add: AppendIfNeeded_Some)
next
  assume "p \<in> set (m_modules ml)"
  then show "AppendIfNeeded_times (Suc n) (Some p) ml = (replicate (Suc n) False, ml)"
    by (rule AppendIfNeeded_times_present)
qed

theorem AppendIfNeeded_idempotent_witness:
  "AppendIfNeeded_times 3 (Some 7) \<lparr>m_modules = [4, 5]\<rparr> =
     ([True, False, False], \<lparr>m_modules = [4, 5, 7]\<rparr>)
   \<and> AppendIfNeeded_times 3 (Some 5) \<lparr>m_modules = [4, 5]\<rparr> =
     ([False, False, False], \<lparr>m_modules = [4, 5]\<rparr>)"
  using AppendIfNeeded_idempotent [of 7 "\<lparr>m_modules = [4, 5]\<rparr>" 2]
    AppendIfNeeded_idempotent [of 5 "\<lparr>m_modules = [4, 5]\<rparr>" 2]
  by (simp add: eval_nat_numeral)

text \<open>
  C2 as stated quantifies over every registry: on a registry that already holds the
  module, the first call returns false and the length does not grow.
\<close>

theorem AppendIfNeeded_present_counterexample:
  "fst (AppendIfNeeded_times 1 (Some 7) \<lparr>m_modules = [7]\<rparr>) = [False]
   \<and> length (m_modules (snd (AppendIfNeeded_times 1 (Some 7) \<lparr>m_modules = [7]\<rparr>)))
       = length (m_modules \<lparr>m_modules = [7]\<rparr>)"
  by (simp add: AppendIfNeeded_def)

lemma length_remove1_plus:
  "length (remove1 p ms) + (if p \<in> set ms then 1 else 0) = length ms"
  by (induction ms) auto

text \<open>
  C6 (amended). After any sequence of \<open>Append\<close> and \<open>Remove\<close> calls, the length of the
  registry is its initial length, plus the number of \<open>Append\<close> calls whose reference
  was not null, minus the number of \<open>Remove\<close> calls that returned true.
\<close>

theorem Append_Remove_length:
  "int (length (m_modules (snd (run_calls cs ml)))) =
     int (length (m_modules ml)) + int (length (filter is_Append_nonnull cs))
       - int (fst (run_calls cs ml))"
proof (induction cs arbitrary: ml)
  case Nil
  show ?case by simp
next
  case (Cons c cs)
  show ?case
  proof (cases c)
    case (CallAppend sp)
    with Cons [of "Append sp ml"] show ?thesis
      by (cases sp) (simp_all add: Append_def)
  next
    case (CallRemove sp)
    show ?thesis
    proof (cases sp)
      case None
      with CallRemove Cons [of ml] show ?thesis
        by (simp add: Remove_def)
    next
      case (Some p)
      with CallRemove Cons [of "ml\<lparr>m_modules := remove1 p (m_modules ml)\<rparr>"]
        length_remove1_plus [of p "m_modules ml"]
      show ?thesis
        by (auto simp: Remove_Some case_prod_beta split: if_splits)
    qed
  qed
qed

theorem Append_Remove_length_witness:
  "int (length (m_modules (snd (run_calls
      [CallAppend (Some 1), CallAppend None, CallRemove (Some 1), CallRemove (Some 9)]
      \<lparr>m_modules = [5]\<rparr>)))) = 1 + 1 - 1"
  using Append_Remove_length
    [of "[CallAppend (Some 1), CallAppend None, CallRemove (Some 1), CallRemove (Some 9)]"
        "\<lparr>m_modules = [5]\<rparr>"]
  by (simp add: Append_def Remove_Some)

text \<open>
  C6 as stated counts every \<open>Append\<close> call: one \<open>Append\<close> of the null reference on the
  empty registry is one \<open>Append\<close> call and no \<open>Remove\<close>, and the length stays 0.
\<close>

theorem Append_null_counterexample:
  "length (m_modules (snd (run_calls [CallAppend None] \<lparr>m_modules = []\<rparr>))) = 0
   \<and> length (filter is_Append [CallAppend None]) = 1
   \<and> fst (run_calls [CallAppend None] \<lparr>m_modules = []\<rparr>) = 0"
  by (simp add: Append_def)

lemma length_fold_remove1_le: "length (fold remove1 ps xs) \<le> length xs"
proof (induction ps arbitrary: xs)
  case Nil
  show ?case by simp
next
  case (Cons p ps)
  have "length (fold remove1 ps (remove1 p xs)) \<le> length (remove1 p xs)"
    by (rule Cons.IH)
  also have "\<dots> \<le> length xs"
    by (simp add: length_remove1)
  finally show ?case by simp
qed

lemma mset_fold_remove1: "mset (fold remove1 ps xs) = mset xs - mset ps"
proof (induction ps arbitrary: xs)
  case Nil
  show ?case by simp
next
  case (Cons p ps)
  have "mset (fold remove1 (p # ps) xs) = mset (remove1 p xs) - mset ps"
    by (simp add: Cons.IH)
  also have "\<dots> = mset xs - {#p#} - mset ps"
    by simp
  also have "\<dots> = mset xs - ({#p#} + mset ps)"
    by (rule diff_diff_add)
  finally show ?case by simp
qed

lemma remove1_distinct_filter: "distinct xs \<Longrightarrow> remove1 p xs = filter (\<lambda>q. q \<noteq> p) xs"
  by (induction xs) (auto intro: filter_True [symmetric])

lemma fold_remove1_distinct:
  "distinct xs \<Longrightarrow> fold remove1 ps xs = filter (\<lambda>q. q \<notin> set ps) xs"
proof (induction ps arbitrary: xs)
  case Nil
  show ?case by simp
next
  case (Cons p ps)
  from Cons.prems have "distinct (remove1 p xs)" by simp
  from Cons.IH [OF this] Cons.prems show ?case
    by (auto simp: remove1_distinct_filter intro: filter_cong)
qed

lemma Remove_list_loop_other:
  assumes "this \<noteq> module_list"
    and "pos + left = length (m_modules (regs module_list))"
  shows "Remove_list_loop vacated this module_list pos left regs n =
     (n + length (m_modules (regs this))
        - length (fold remove1 (drop pos (m_modules (regs module_list))) (m_modules (regs this))),
      regs(this := (regs this)\<lparr>m_modules :=
        fold remove1 (drop pos (m_modules (regs module_list))) (m_modules (regs this))\<rparr>))"
  using assms
proof (induction left arbitrary: pos regs n)
  case 0
  then show ?case by simp
next
  case (Suc left)
  let ?S = "m_modules (regs module_list)"
  let ?R = "m_modules (regs this)"
  from Suc.prems have lt: "pos < length ?S" by simp
  then have d: "drop pos ?S = ?S ! pos # drop (Suc pos) ?S"
    by (simp add: Cons_nth_drop_Suc)
  let ?regs' = "regs(this := (regs this)\<lparr>m_modules := remove1 (?S ! pos) ?R\<rparr>)"
  from Suc.prems have same: "?regs' module_list = regs module_list" by simp
  from Suc.prems have len: "Suc pos + left = length (m_modules (?regs' module_list))" by simp
  have IH: "Remove_list_loop vacated this module_list (Suc pos) left ?regs' k =
     (k + length (m_modules (?regs' this))
        - length (fold remove1 (drop (Suc pos) (m_modules (?regs' module_list))) (m_modules (?regs' this))),
      ?regs'(this := (?regs' this)\<lparr>m_modules :=
        fold remove1 (drop (Suc pos) (m_modules (?regs' module_list))) (m_modules (?regs' this))\<rparr>))" for k
    by (rule Suc.IH [where pos = "Suc pos" and regs = ?regs', OF Suc.prems(1) len])
  have step: "Remove_list_loop vacated this module_list pos (Suc left) regs n =
      Remove_list_loop vacated this module_list (Suc pos) left ?regs'
        (if ?S ! pos \<in> set ?R then n + 1 else n)"
    by (simp add: read_pos_def lt Remove_Some)
  have upd: "?regs'(this := (?regs' this)\<lparr>m_modules := ys\<rparr>) = regs(this := (regs this)\<lparr>m_modules := ys\<rparr>)" for ys
    by (rule ext) simp
  have R': "m_modules (?regs' this) = remove1 (?S ! pos) ?R" by simp
  from length_fold_remove1_le [of "drop (Suc pos) ?S" "remove1 (?S ! pos) ?R"]
    length_remove1_plus [of "?S ! pos" ?R]
  show ?case
    unfolding step IH upd R' same d
    by (auto split: if_splits)
qed

lemma Remove_list_other:
  assumes "this \<noteq> module_list"
  shows "Remove_list vacated this module_list regs =
     (length (m_modules (regs this))
        - length (fold remove1 (m_modules (regs module_list)) (m_modules (regs this))),
      regs(this := (regs this)\<lparr>m_modules :=
        fold remove1 (m_modules (regs module_list)) (m_modules (regs this))\<rparr>))"
  using Remove_list_loop_other [OF assms, of 0 "length (m_modules (regs module_list))" regs vacated 0]
  by (simp add: Remove_list_def)


text \<open>
  C7 (amended). For a receiver \<open>R\<close> and an argument \<open>S\<close> that is another registry,
  \<open>R.Remove(S)\<close> takes the entries of \<open>S\<close> in order and erases, for each, the first
  entry of \<open>R\<close> with the same address, if there is one (\<open>remove1\<close> erases the first
  occurrence); \<open>S\<close> and every other registry stay as they are. As multisets, what is
  left of \<open>R\<close> is \<open>R\<close> minus \<open>S\<close>. The value returned is the number of entries removed
  from \<open>R\<close>. When \<open>R\<close> holds no module twice, every entry of \<open>R\<close> that is also present
  in \<open>S\<close> is removed and the others stay, in order.
\<close>

theorem Remove_list_result:
  assumes "this \<noteq> module_list"
  shows "snd (Remove_list vacated this module_list regs) =
           regs(this := (regs this)\<lparr>m_modules :=
             fold remove1 (m_modules (regs module_list)) (m_modules (regs this))\<rparr>)
   \<and> mset (m_modules (snd (Remove_list vacated this module_list regs) this))
       = mset (m_modules (regs this)) - mset (m_modules (regs module_list))
   \<and> fst (Remove_list vacated this module_list regs)
       + length (m_modules (snd (Remove_list vacated this module_list regs) this))
       = length (m_modules (regs this))
   \<and> (distinct (m_modules (regs this)) \<longrightarrow>
        m_modules (snd (Remove_list vacated this module_list regs) this)
          = filter (\<lambda>p. p \<notin> set (m_modules (regs module_list))) (m_modules (regs this)))"
  using length_fold_remove1_le [of "m_modules (regs module_list)" "m_modules (regs this)"]
  by (simp add: Remove_list_other [OF assms] mset_fold_remove1 fold_remove1_distinct)

theorem Remove_list_result_witness:
  "(100::nat) \<noteq> 200
   \<and> m_modules (snd (Remove_list vacated_empty 100 200 (two_registries [10, 20, 10] [10, 90])) 100)
       = [20, 10]
   \<and> fst (Remove_list vacated_empty 100 200 (two_registries [10, 20, 10] [10, 90])) + length [20, 10 :: nat] = 3
   \<and> m_modules (snd (Remove_list vacated_empty 100 200 (two_registries [10, 20, 10] [10, 90])) 200)
       = [10, 90]
   \<and> distinct (m_modules (two_registries [10, 20, 30] [30, 90, 10] 100))
   \<and> m_modules (snd (Remove_list vacated_empty 100 200 (two_registries [10, 20, 30] [30, 90, 10])) 100)
       = [20]
   \<and> fst (Remove_list vacated_empty 100 200 (two_registries [10, 20, 30] [30, 90, 10])) + length [20 :: nat] = 3"
proof -
  have ne: "(100::nat) \<noteq> 200" by simp
  from Remove_list_result [OF ne, of vacated_empty "two_registries [10, 20, 10] [10, 90]"]
    Remove_list_result [OF ne, of vacated_empty "two_registries [10, 20, 30] [30, 90, 10]"]
  show ?thesis
    by (auto simp: two_registries_def)
qed

text \<open>
  C7 as stated fails when \<open>R\<close> holds a module twice and \<open>S\<close> holds it once: one of
  the two entries stays in \<open>R\<close> although it is present in \<open>S\<close>.
\<close>

theorem Remove_list_duplicate_counterexample:
  "fst (Remove_list vacated_empty 100 200 (two_registries [10, 10] [10])) = 1
   \<and> m_modules (snd (Remove_list vacated_empty 100 200 (two_registries [10, 10] [10])) 100) = [10]
   \<and> m_modules (snd (Remove_list vacated_empty 100 200 (two_registries [10, 10] [10])) 200) = [10]"
  by (simp add: Remove_list_def two_registries_def read_pos_def Remove_Some)

text \<open>
  The call \<open>R.Remove(R)\<close> on the registry \<open>[10, 20, 30]\<close>: positions 0 and 1 remove
  modules 10 and 30, position 2 lies behind the shortened vector. Whether it reads as
  the empty reference or as the module 30 that it held last, nothing more is removed:
  the call returns 2 and leaves \<open>[20]\<close>.
\<close>

lemma Remove_list_self_example:
  "fst (Remove_list vacated_empty 100 100 (two_registries [10, 20, 30] [])) = 2
   \<and> m_modules (snd (Remove_list vacated_empty 100 100 (two_registries [10, 20, 30] [])) 100) = [20]
   \<and> fst (Remove_list (vacated_stale 30) 100 100 (two_registries [10, 20, 30] [])) = 2
   \<and> m_modules (snd (Remove_list (vacated_stale 30) 100 100 (two_registries [10, 20, 30] [])) 100) = [20]"
  by (simp add: Remove_list_def two_registries_def read_pos_def Remove_Some
      vacated_empty_def vacated_stale_def Remove_def)

lemma RemoveOrphans_loop_filter:
  "RemoveOrphans_loop outside kept ps n =
     (n + length (filter (unique outside (kept @ ps)) ps),
      kept @ filter (\<lambda>p. \<not> unique outside (kept @ ps) p) ps)"
proof (induction ps arbitrary: kept n)
  case Nil
  show ?case by simp
next
  case (Cons p ps)
  show ?case
  proof (cases "unique outside (kept @ p # ps) p")
    case True
    then have "p \<notin> set ps" 
      by (auto simp: unique_def use_count_def count_list_0_iff)
    then have same: "unique outside (kept @ p # ps) q = unique outside (kept @ ps) q"
      if "q \<in> set ps" for q
      using that by (auto simp: unique_def use_count_def)
    have f1: "filter (unique outside (kept @ p # ps)) ps = filter (unique outside (kept @ ps)) ps"
      by (rule filter_cong) (simp_all add: same)
    have f2: "filter (\<lambda>q. \<not> unique outside (kept @ p # ps) q) ps
                = filter (\<lambda>q. \<not> unique outside (kept @ ps) q) ps"
      by (rule filter_cong) (simp_all add: same)
    from True show ?thesis by (simp add: Cons.IH f1 f2)
  next
    case False
    then show ?thesis by (simp add: Cons.IH)
  qed
qed

lemma count_list_distinct: "distinct xs \<Longrightarrow> x \<in> set xs \<Longrightarrow> count_list xs x = 1"
  by (induction xs) (auto simp: count_list_0_iff)

text \<open>
  C3 (amended). \<open>RemoveOrphans\<close> removes exactly the entries whose shared pointer is
  unique: the module has no holder outside the registry and the registry holds it
  exactly once. All other entries stay, in order, and the value returned is the
  number of entries removed. When the registry holds no module twice, the entries
  removed are exactly those without an outside holder.
\<close>

theorem RemoveOrphans_result:
  "m_modules (snd (RemoveOrphans outside ml)) =
     filter (\<lambda>p. \<not> (outside p = 0 \<and> count_list (m_modules ml) p = 1)) (m_modules ml)
   \<and> fst (RemoveOrphans outside ml) + length (m_modules (snd (RemoveOrphans outside ml)))
       = length (m_modules ml)
   \<and> (distinct (m_modules ml) \<longrightarrow>
        m_modules (snd (RemoveOrphans outside ml)) = filter (\<lambda>p. outside p \<noteq> 0) (m_modules ml))"
proof -
  let ?ms = "m_modules ml"
  have u: "unique outside ?ms p = (outside p = 0 \<and> count_list ?ms p = 1)" if "p \<in> set ?ms" for p
  proof -
    from that have "count_list ?ms p \<noteq> 0" by (simp add: count_list_0_iff)
    then show ?thesis unfolding unique_def use_count_def by arith
  qed
  have f: "filter (\<lambda>p. \<not> unique outside ?ms p) ?ms
             = filter (\<lambda>p. \<not> (outside p = 0 \<and> count_list ?ms p = 1)) ?ms"
    by (rule filter_cong) (simp_all add: u)
  have d: "filter (\<lambda>p. \<not> unique outside ?ms p) ?ms = filter (\<lambda>p. outside p \<noteq> 0) ?ms"
    if "distinct ?ms"
    by (rule filter_cong) (use that in \<open>auto simp: u count_list_distinct\<close>)
  have l: "length (filter (unique outside ?ms) ?ms) + length (filter (\<lambda>p. \<not> unique outside ?ms p) ?ms)
             = length ?ms"
    by (rule sum_length_filter_compl)
  have r: "RemoveOrphans outside ml =
      (length (filter (unique outside ?ms) ?ms),
       ml\<lparr>m_modules := filter (\<lambda>p. \<not> unique outside ?ms p) ?ms\<rparr>)"
    by (simp add: RemoveOrphans_def RemoveOrphans_loop_filter)
  have c1: "m_modules (snd (RemoveOrphans outside ml)) =
     filter (\<lambda>p. \<not> (outside p = 0 \<and> count_list ?ms p = 1)) ?ms"
    unfolding r using f by simp
  have c2: "fst (RemoveOrphans outside ml) + length (m_modules (snd (RemoveOrphans outside ml)))
       = length ?ms"
    unfolding r using l by simp
  have c3: "m_modules (snd (RemoveOrphans outside ml)) = filter (\<lambda>p. outside p \<noteq> 0) ?ms"
    if "distinct ?ms"
    unfolding r using d [OF that] by simp
  from c1 c2 c3 show ?thesis by blast
qed


theorem RemoveOrphans_result_witness:
  "distinct (m_modules \<lparr>m_modules = [10, 20, 30]\<rparr>)
   \<and> m_modules (snd (RemoveOrphans (no_outside_holder(20 := 2)) \<lparr>m_modules = [10, 20, 30]\<rparr>)) = [20]
   \<and> fst (RemoveOrphans (no_outside_holder(20 := 2)) \<lparr>m_modules = [10, 20, 30]\<rparr>) + length [20::nat] = 3"
  using RemoveOrphans_result [of "no_outside_holder(20 := 2)" "\<lparr>m_modules = [10, 20, 30]\<rparr>"]
  by (auto simp: no_outside_holder_def)

text \<open>
  C3 as stated fails on a registry that holds the same module twice and nobody else
  holds it: neither shared pointer is unique, nothing is removed and 0 is returned.
\<close>

theorem RemoveOrphans_duplicate_counterexample:
  "no_outside_holder 10 = 0
   \<and> RemoveOrphans no_outside_holder \<lparr>m_modules = [10, 10]\<rparr> = (0, \<lparr>m_modules = [10, 10]\<rparr>)"
  by (simp add: RemoveOrphans_def unique_def use_count_def no_outside_holder_def)

section \<open>Properties of the broadcast queries\<close>

lemma FindFunctions_returns_size:
  "fst (FindFunctions f append_flag sc_list ml) = of_nat (length (snd (FindFunctions f append_flag sc_list ml)))"
  by (simp add: FindFunctions_def Let_def)

text \<open>
  C1. On a registry of one module whose search adds one result, called with
  \<open>append = true\<close> and a result list that already holds one entry, \<open>FindFunctions\<close>,
  \<open>FindCompileUnits\<close> and \<open>ResolveSymbolContextsForFileSpec\<close> return 2, the size of
  the list after the call, although one result was added;
  \<open>FindSymbolsWithNameAndType\<close>, which subtracts the initial size, returns 1.
\<close>

theorem FindFunctions_returns_total:
  "FindFunctions one_match True [7] \<lparr>m_modules = [10]\<rparr> = (2, [7, 10])
   \<and> FindCompileUnits one_match True [7] \<lparr>m_modules = [10]\<rparr> = (2, [7, 10])
   \<and> ResolveSymbolContextsForFileSpec one_match [7] \<lparr>m_modules = [10]\<rparr> = (2, [7, 10])
   \<and> FindSymbolsWithNameAndType one_match [7] True \<lparr>m_modules = [10]\<rparr> = (1, [7, 10])"
  by (simp add: FindFunctions_def FindCompileUnits_def ResolveSymbolContextsForFileSpec_def
      FindSymbolsWithNameAndType_def one_match_def)

lemma FindTypes_loop_ask_all:
  "FindTypes_loop f sc mx ps t ty = ask_all f mx (FindTypes_asked f sc mx ps t ty) t ty"
  by (induction ps arbitrary: t ty) (auto split: prod.splits)

lemma FindTypes_asked_affinity:
  "p \<in> set (FindTypes_asked f sc mx ps t ty) \<Longrightarrow> p \<in> set ps \<and> (sc = None \<or> sc = Some p)"
  by (induction ps arbitrary: t ty) (auto split: prod.splits if_splits)

lemma FindTypes_loop_Cons:
  assumes "(if sc = None \<or> sc = Some x
            then (case f x mx ty of (n, ty') \<Rightarrow> (t + n, ty'))
            else (t, ty)) = (t', ty')"
  shows "FindTypes_loop f sc mx (x # zs) t ty =
           (if mx \<le> t' then (t', ty') else FindTypes_loop f sc mx zs t' ty')"
    and "FindTypes_asked f sc mx (x # zs) t ty =
           (if sc = None \<or> sc = Some x then [x] else [])
             @ (if mx \<le> t' then [] else FindTypes_asked f sc mx zs t' ty')"
  using assms by (auto split: prod.splits if_splits)

lemma FindTypes_loop_short_circuit:
  "xs \<noteq> [] \<Longrightarrow> mx \<le> fst (FindTypes_loop f sc mx xs t ty) \<Longrightarrow>
     FindTypes_loop f sc mx (xs @ ys) t ty = FindTypes_loop f sc mx xs t ty
     \<and> FindTypes_asked f sc mx (xs @ ys) t ty = FindTypes_asked f sc mx xs t ty"
proof (induction xs arbitrary: t ty)
  case Nil
  then show ?case by simp
next
  case (Cons x xs)
  obtain t' ty' where step:
    "(if sc = None \<or> sc = Some x
      then (case f x mx ty of (n, ty') \<Rightarrow> (t + n, ty'))
      else (t, ty)) = (t', ty')"
    by (cases "if sc = None \<or> sc = Some x
      then (case f x mx ty of (n, ty') \<Rightarrow> (t + n, ty'))
      else (t, ty)")
  note unfold = FindTypes_loop_Cons [where f=f and sc=sc and x=x and mx=mx and ty=ty and t=t, OF step]
  show ?case
  proof (cases "mx \<le> t'")
    case True
    then show ?thesis
      using unfold [of xs] unfold [of "xs @ ys"] by simp
  next
    case False
    with Cons.prems(2) have reached: "mx \<le> fst (FindTypes_loop f sc mx xs t' ty')"
      using unfold(1) [of xs] by simp
    with False have "xs \<noteq> []" by auto
    from Cons.IH [OF this reached] False show ?thesis
      using unfold [of xs] unfold [of "xs @ ys"] by simp
  qed
qed

text \<open>
  C8. \<open>FindTypes\<close> returns what asking the modules of \<open>FindTypes_asked\<close> one after
  the other returns: the sum of their match counts, starting from 0, and the type
  list they leave. Every module asked is an entry of the registry and, when the
  symbol context names a module, is that module. As soon as the running total has
  reached \<open>max_matches\<close> after a non-empty part \<open>xs\<close> of the registry, the modules
  \<open>ys\<close> behind it are not scanned: the result and the modules asked are those of
  \<open>xs\<close> alone.
\<close>

theorem FindTypes_result:
  "FindTypes f sc a mx types ml =
     ask_all f mx (FindTypes_asked f sc mx (m_modules ml) 0 (if \<not> a then [] else types))
       0 (if \<not> a then [] else types)
   \<and> (\<forall>p \<in> set (FindTypes_asked f sc mx (m_modules ml) 0 (if \<not> a then [] else types)).
         p \<in> set (m_modules ml) \<and> (sc = None \<or> sc = Some p))
   \<and> (\<forall>xs ys. m_modules ml = xs @ ys \<and> xs \<noteq> []
          \<and> mx \<le> fst (FindTypes f sc a mx types (ml\<lparr>m_modules := xs\<rparr>)) \<longrightarrow>
        FindTypes f sc a mx types ml = FindTypes f sc a mx types (ml\<lparr>m_modules := xs\<rparr>)
        \<and> FindTypes_asked f sc mx (m_modules ml) 0 (if \<not> a then [] else types)
            = FindTypes_asked f sc mx xs 0 (if \<not> a then [] else types))"
proof (intro conjI allI impI ballI)
  show "FindTypes f sc a mx types ml =
     ask_all f mx (FindTypes_asked f sc mx (m_modules ml) 0 (if \<not> a then [] else types))
       0 (if \<not> a then [] else types)"
    unfolding FindTypes_def by (rule FindTypes_loop_ask_all)
next
  fix p
  assume "p \<in> set (FindTypes_asked f sc mx (m_modules ml) 0 (if \<not> a then [] else types))"
  then show "p \<in> set (m_modules ml)" and "sc = None \<or> sc = Some p"
    by (auto dest: FindTypes_asked_affinity)
next
  fix xs ys
  assume h: "m_modules ml = xs @ ys \<and> xs \<noteq> []
          \<and> mx \<le> fst (FindTypes f sc a mx types (ml\<lparr>m_modules := xs\<rparr>))"
  then have "mx \<le> fst (FindTypes_loop f sc mx xs 0 (if \<not> a then [] else types))"
    by (simp add: FindTypes_def)
  from FindTypes_loop_short_circuit [OF _ this, of ys] h
  show "FindTypes f sc a mx types ml = FindTypes f sc a mx types (ml\<lparr>m_modules := xs\<rparr>)"
    and "FindTypes_asked f sc mx (m_modules ml) 0 (if \<not> a then [] else types)
            = FindTypes_asked f sc mx xs 0 (if \<not> a then [] else types)"
    by (simp_all add: FindTypes_def)
qed

theorem FindTypes_result_witness:
  "m_modules \<lparr>m_modules = [10, 20, 30]\<rparr> = [10, 20] @ [30]
   \<and> [10, 20 :: nat] \<noteq> []
   \<and> 2 \<le> fst (FindTypes one_type None False 2 [] \<lparr>m_modules = [10, 20]\<rparr>)
   \<and> FindTypes one_type None False 2 [] \<lparr>m_modules = [10, 20, 30]\<rparr> = (2, [10, 20])
   \<and> FindTypes_asked one_type None 2 [10, 20, 30] 0 [] = [10, 20]
   \<and> FindTypes one_type (Some 20) True 5 [7] \<lparr>m_modules = [10, 20, 30]\<rparr> = (1, [7, 20])
   \<and> FindTypes_asked one_type (Some 20) 5 [10, 20, 30] 0 [7] = [20]"
  using FindTypes_result [of one_type None False 2 "[]" "\<lparr>m_modules = [10, 20, 30]\<rparr>"]
    FindTypes_result [of one_type "Some 20" True 5 "[7]" "\<lparr>m_modules = [10, 20, 30]\<rparr>"]
  by (simp add: FindTypes_def one_type_def word_le_nat_alt)

section \<open>Properties of GetSharedModule\<close>

lemmas fixture_defs =
  ls_module_def ls_spec_def ls_uuid_spec_def ls_host_def two_cached_def
  moved_spec_def moved_host_def empty_cache_def

lemmas GetSharedModule_defs =
  GetSharedModule_def initial_search_def FindModules_def MatchesModuleSpec_def
  create_from_spec_def new_module_def locate_and_create_def GetModuleAtIndex_def
  GetSize_def Append_def Remove_Some Let_def

lemma FindModules_fold:
  "fold (\<lambda>p matching. if P p then Append (Some p) matching else matching) xs matching
     = matching\<lparr>m_modules := m_modules matching @ filter P xs\<rparr>"
  by (induction xs arbitrary: matching) (simp_all add: Append_def)

lemma FindModules_filter:
  "FindModules objs module_spec \<lparr>m_modules = []\<rparr> ml =
     (length (filter (\<lambda>p. MatchesModuleSpec (objs p) module_spec) (m_modules ml)),
      \<lparr>m_modules = filter (\<lambda>p. MatchesModuleSpec (objs p) module_spec) (m_modules ml)\<rparr>)"
  by (simp add: FindModules_def FindModules_fold GetSize_def)

lemma initial_search_candidates:
  "initial_search host module_spec old st =
     search_matching host module_spec (modules st)
       (filter (\<lambda>p. MatchesModuleSpec (modules st p) module_spec) (m_modules (g_shared_module_list st)))
       (g_shared_module_list st) old"
  by (simp add: initial_search_def FindModules_filter)

lemma filter_remove1_first:
  "filter P xs = c # cs \<Longrightarrow> filter P (remove1 c xs) = cs"
proof (induction xs)
  case Nil
  then show ?case by simp
next
  case (Cons x xs)
  show ?case
  proof (cases "P x")
    case True
    with Cons.prems show ?thesis by simp
  next
    case False
    have "c \<in> set (c # cs)" by simp
    then have "c \<in> set (filter P (x # xs))" by (simp only: Cons.prems)
    then have "P c" by (simp only: set_filter mem_Collect_eq)
    with False have "x \<noteq> c" by auto
    with False Cons show ?thesis by simp
  qed
qed

text \<open>
  C4 (amended). Let \<open>c\<close> be the first entry of the shared list that matches the spec,
  in a call with \<open>always_create\<close> false. If the spec carries a valid identifier, \<open>c\<close> is
  accepted at once: the search leaves the loop with \<open>c\<close> and \<open>GetSharedModule\<close> returns
  it with the shared list as it was. Otherwise, if the spec's path is not empty and its
  modification time is valid and equal to the one recorded in \<open>c\<close>, the search
  returns \<open>c\<close> and \<open>GetSharedModule\<close> returns it with the shared list as it was. If
  the modification time of the path is valid and differs from the one recorded in \<open>c\<close>,
  the first entry \<open>c\<close> is erased from the shared list, \<open>c\<close> is written to the
  old-module output only when the caller passed one and it holds no module yet, and
  the search goes on as a search of the shortened list.
\<close>

theorem initial_search_first_candidate:
  assumes first: "filter (\<lambda>p. MatchesModuleSpec (modules st p) module_spec)
                    (m_modules (g_shared_module_list st)) = c # cs"
  shows "(spec_uuid module_spec \<noteq> None \<longrightarrow>
            initial_search host module_spec old st = (False, Some c, g_shared_module_list st, old)
            \<and> GetSharedModule host module_spec old_ptr did_create_ptr False st =
                \<lparr>res_error = Success, res_module_sp = Some c,
                 res_old_module_sp = map_option (\<lambda>_. None) old_ptr,
                 res_did_create = map_option (\<lambda>_. False) did_create_ptr, res_shared = st\<rparr>)
       \<and> (spec_uuid module_spec = None \<and> spec_file module_spec \<noteq> []
            \<and> file_mod_time host (spec_file module_spec) = Some t
            \<and> mod_time (modules st c) = Some t \<longrightarrow>
            initial_search host module_spec old st = (True, Some c, g_shared_module_list st, old)
            \<and> GetSharedModule host module_spec old_ptr did_create_ptr False st =
                \<lparr>res_error = Success, res_module_sp = Some c,
                 res_old_module_sp = map_option (\<lambda>_. None) old_ptr,
                 res_did_create = map_option (\<lambda>_. False) did_create_ptr, res_shared = st\<rparr>)
       \<and> (spec_uuid module_spec = None
            \<and> file_mod_time host (spec_file module_spec) = Some t
            \<and> mod_time (modules st c) \<noteq> Some t \<longrightarrow>
            initial_search host module_spec old st =
              initial_search host module_spec (if old = Some None then Some (Some c) else old)
                (st\<lparr>g_shared_module_list :=
                      (g_shared_module_list st)
                        \<lparr>m_modules := remove1 c (m_modules (g_shared_module_list st))\<rparr>\<rparr>))"
proof (intro conjI impI)
  assume "spec_uuid module_spec \<noteq> None"
  then show "initial_search host module_spec old st = (False, Some c, g_shared_module_list st, old)"
    for old by (simp add: initial_search_candidates first)
  then show "GetSharedModule host module_spec old_ptr did_create_ptr False st =
                \<lparr>res_error = Success, res_module_sp = Some c,
                 res_old_module_sp = map_option (\<lambda>_. None) old_ptr,
                 res_did_create = map_option (\<lambda>_. False) did_create_ptr, res_shared = st\<rparr>"
    by (simp add: GetSharedModule_def)
next
  assume "spec_uuid module_spec = None \<and> spec_file module_spec \<noteq> []
            \<and> file_mod_time host (spec_file module_spec) = Some t
            \<and> mod_time (modules st c) = Some t"
  then show "initial_search host module_spec old st = (True, Some c, g_shared_module_list st, old)"
    for old by (simp add: initial_search_candidates first)
  then show "GetSharedModule host module_spec old_ptr did_create_ptr False st =
                \<lparr>res_error = Success, res_module_sp = Some c,
                 res_old_module_sp = map_option (\<lambda>_. None) old_ptr,
                 res_did_create = map_option (\<lambda>_. False) did_create_ptr, res_shared = st\<rparr>"
    by (simp add: GetSharedModule_def)
next
  assume "spec_uuid module_spec = None
            \<and> file_mod_time host (spec_file module_spec) = Some t
            \<and> mod_time (modules st c) \<noteq> Some t"
  then show "initial_search host module_spec old st =
              initial_search host module_spec (if old = Some None then Some (Some c) else old)
                (st\<lparr>g_shared_module_list :=
                      (g_shared_module_list st)
                        \<lparr>m_modules := remove1 c (m_modules (g_shared_module_list st))\<rparr>\<rparr>)"
    using filter_remove1_first [OF first]
    by (auto simp: initial_search_candidates first Remove_Some)
qed

theorem initial_search_first_candidate_witness:
  "spec_uuid ls_uuid_spec \<noteq> None
   \<and> initial_search ls_host ls_uuid_spec (Some None) (two_cached (Some 1))
       = (False, Some 10, \<lparr>m_modules = [10, 20]\<rparr>, Some None)
   \<and> file_mod_time ls_host (spec_file ls_spec) = Some 2
   \<and> mod_time (modules (two_cached (Some 2)) 10) = Some 2
   \<and> initial_search ls_host ls_spec (Some None) (two_cached (Some 2))
       = (True, Some 10, \<lparr>m_modules = [10, 20]\<rparr>, Some None)
   \<and> res_shared (GetSharedModule ls_host ls_spec (Some (Some 5)) (Some True) False (two_cached (Some 2)))
       = two_cached (Some 2)
   \<and> mod_time (modules (two_cached (Some 1)) 10) \<noteq> Some 2
   \<and> initial_search ls_host ls_spec (Some None) (two_cached (Some 1))
       = initial_search ls_host ls_spec (Some (Some 10))
           ((two_cached (Some 1))\<lparr>g_shared_module_list := \<lparr>m_modules = [20]\<rparr>\<rparr>)"
proof -
  have f1: "filter (\<lambda>p. MatchesModuleSpec (modules (two_cached (Some 1)) p) ls_uuid_spec)
              (m_modules (g_shared_module_list (two_cached (Some 1)))) = 10 # [20]"
    by (simp add: fixture_defs MatchesModuleSpec_def)
  have f2: "filter (\<lambda>p. MatchesModuleSpec (modules (two_cached (Some 2)) p) ls_spec)
              (m_modules (g_shared_module_list (two_cached (Some 2)))) = 10 # [20]"
    by (simp add: fixture_defs MatchesModuleSpec_def)
  have f3: "filter (\<lambda>p. MatchesModuleSpec (modules (two_cached (Some 1)) p) ls_spec)
              (m_modules (g_shared_module_list (two_cached (Some 1)))) = 10 # [20]"
    by (simp add: fixture_defs MatchesModuleSpec_def)
  have h: "spec_uuid ls_uuid_spec \<noteq> None" "spec_uuid ls_spec = None"
    "spec_file ls_spec \<noteq> []"
    "file_mod_time ls_host (spec_file ls_spec) = Some 2"
    "mod_time (modules (two_cached (Some 2)) 10) = Some 2"
    "mod_time (modules (two_cached (Some 1)) 10) \<noteq> Some 2"
    by (simp_all add: fixture_defs)
  have l: "g_shared_module_list (two_cached t) = \<lparr>m_modules = [10, 20]\<rparr>" for t
    by (simp add: two_cached_def)
  from initial_search_first_candidate [OF f1, where host = ls_host and old = "Some None"] h
  have a: "initial_search ls_host ls_uuid_spec (Some None) (two_cached (Some 1))
       = (False, Some 10, \<lparr>m_modules = [10, 20]\<rparr>, Some None)"
    by (simp add: l)
  from initial_search_first_candidate [OF f2, where host = ls_host and old = "Some None"
      and old_ptr = "Some (Some 5)" and did_create_ptr = "Some True" and t = 2] h
  have b: "initial_search ls_host ls_spec (Some None) (two_cached (Some 2))
       = (True, Some 10, \<lparr>m_modules = [10, 20]\<rparr>, Some None)"
    and b': "res_shared (GetSharedModule ls_host ls_spec (Some (Some 5)) (Some True) False (two_cached (Some 2)))
       = two_cached (Some 2)"
    by (simp_all add: l)
  from initial_search_first_candidate [OF f3, where host = ls_host and old = "Some None" and t = 2] h
  have c: "initial_search ls_host ls_spec (Some None) (two_cached (Some 1))
       = initial_search ls_host ls_spec (Some (Some 10))
           ((two_cached (Some 1))\<lparr>g_shared_module_list := \<lparr>m_modules = [20]\<rparr>\<rparr>)"
    by (simp add: l)
  from a b b' c h show ?thesis by simp
qed

text \<open>
  C4 as stated records every stale candidate. With two cached modules that both match
  and are both stale, module 20 is a stale candidate and is removed from the shared
  list, but the old-module output holds module 10, during the search and when
  \<open>GetSharedModule\<close> returns.
\<close>

theorem initial_search_second_stale_counterexample:
  "MatchesModuleSpec (modules (two_cached (Some 1)) 20) ls_spec
   \<and> file_mod_time ls_host (spec_file ls_spec) = Some 2
   \<and> mod_time (modules (two_cached (Some 1)) 20) = Some 1
   \<and> initial_search ls_host ls_spec (Some None) (two_cached (Some 1))
       = (False, None, \<lparr>m_modules = []\<rparr>, Some (Some 10))
   \<and> res_old_module_sp (GetSharedModule ls_host ls_spec (Some (Some 5)) (Some True) False
         (two_cached (Some 1))) = Some (Some 10)"
  by (simp add: fixture_defs GetSharedModule_defs)

lemma MatchesModuleSpec_uuid:
  "spec_uuid module_spec = Some u \<Longrightarrow> MatchesModuleSpec m module_spec = (mod_uuid m = Some u)"
  by (simp add: MatchesModuleSpec_def)

lemma filter_append_new:
  assumes "filter (\<lambda>q. mod_uuid (objs q) = Some u) xs = []" and "mod_uuid m = Some u"
  shows "\<exists>cs. filter (\<lambda>q. mod_uuid ((objs(p := m)) q) = Some u) (xs @ [p]) = p # cs"
proof -
  from assms(1) have none: "mod_uuid (objs q) \<noteq> Some u" if "q \<in> set xs" for q
    using that by (simp add: filter_empty_conv)
  have "\<exists>cs. filter (\<lambda>q. mod_uuid ((objs(p := m)) q) = Some u) (ys @ [p]) = p # cs"
    if "set ys \<subseteq> set xs" for ys
    using that
  proof (induction ys)
    case Nil
    from assms(2) show ?case by simp
  next
    case (Cons y ys)
    then obtain cs where
      cs: "filter (\<lambda>q. mod_uuid ((objs(p := m)) q) = Some u) (ys @ [p]) = p # cs"
      by auto
    show ?case
    proof (cases "y = p")
      case True
      with assms(2) show ?thesis by simp
    next
      case False
      from Cons.prems have "mod_uuid (objs y) \<noteq> Some u" by (simp add: none)
      with False cs show ?thesis by simp
    qed
  qed
  then show ?thesis by simp
qed

lemma GetSharedModule_found:
  assumes "initial_search host module_spec (map_option (\<lambda>_. None) old_ptr) st
             = (returned, Some c, g_shared_module_list st, old1)"
  shows "GetSharedModule host module_spec old_ptr did_create_ptr False st =
           \<lparr>res_error = Success, res_module_sp = Some c, res_old_module_sp = old1,
            res_did_create = map_option (\<lambda>_. False) did_create_ptr, res_shared = st\<rparr>"
  using assms by (simp add: GetSharedModule_def)

lemma GetSharedModule_uuid_hit:
  assumes "spec_uuid module_spec = Some u"
    and "filter (\<lambda>q. mod_uuid (modules st q) = Some u) (m_modules (g_shared_module_list st)) = c # cs"
  shows "GetSharedModule host module_spec old_ptr did_create_ptr False st =
           \<lparr>res_error = Success, res_module_sp = Some c,
            res_old_module_sp = map_option (\<lambda>_. None) old_ptr,
            res_did_create = map_option (\<lambda>_. False) did_create_ptr, res_shared = st\<rparr>"
proof (rule GetSharedModule_found)
  show "initial_search host module_spec (map_option (\<lambda>_. None) old_ptr) st
          = (False, Some c, g_shared_module_list st, map_option (\<lambda>_. None) old_ptr)"
    using assms by (simp add: initial_search_candidates MatchesModuleSpec_uuid)
qed

lemma GetSharedModule_uuid_miss:
  assumes "spec_uuid module_spec = Some u"
    and "filter (\<lambda>q. mod_uuid (modules st q) = Some u) (m_modules (g_shared_module_list st)) = []"
  shows "GetSharedModule host module_spec old_ptr did_create_ptr False st =
           create_from_spec host module_spec (map_option (\<lambda>_. None) old_ptr)
             (map_option (\<lambda>_. False) did_create_ptr) st"
  using assms
  by (simp add: GetSharedModule_def initial_search_candidates MatchesModuleSpec_uuid)

lemma locate_and_create_first_match:
  assumes u: "spec_uuid module_spec = Some u"
    and ok: "res_error (locate_and_create host module_spec old dc st) = Success"
    and p: "res_module_sp (locate_and_create host module_spec old dc st) = Some p"
    and pu: "mod_uuid (modules (res_shared (locate_and_create host module_spec old dc st)) p) = Some u"
  shows "\<exists>cs. filter (\<lambda>q. mod_uuid (modules (res_shared (locate_and_create host module_spec old dc st)) q) = Some u)
           (m_modules (g_shared_module_list (res_shared (locate_and_create host module_spec old dc st)))) = p # cs"
proof -
  let ?file_spec = "LocateExecutableObjectFile host module_spec"
  let ?pspec = "module_spec\<lparr>spec_file := ?file_spec, spec_platform_file := ?file_spec\<rparr>"
  let ?F = "filter (\<lambda>q. mod_uuid (modules st q) = Some u) (m_modules (g_shared_module_list st))"
  have pu': "spec_uuid ?pspec = Some u" using u by simp
  have m: "MatchesModuleSpec x ?pspec = (mod_uuid x = Some u)" for x
    by (rule MatchesModuleSpec_uuid [OF pu'])
  from p have differs: "?file_spec \<noteq> spec_file module_spec"
    by (auto simp: locate_and_create_def Let_def split: if_splits)
  from p differs have exists: "file_exists host ?file_spec"
    by (auto simp: locate_and_create_def Let_def split: if_splits)
  show ?thesis
  proof (cases ?F)
    case (Cons c cs)
    with u differs exists have
      "locate_and_create host module_spec old dc st =
         \<lparr>res_error = Success, res_module_sp = Some c, res_old_module_sp = old,
          res_did_create = dc, res_shared = st\<rparr>"
      by (simp add: locate_and_create_def Let_def FindModules_filter m GetModuleAtIndex_def)
    with p Cons show ?thesis by simp
  next
    case Nil
    let ?p1 = "next_module st"
    let ?m1 = "new_Module host ?pspec"
    show ?thesis
    proof (cases "mod_object_file ?m1")
      case True
      with u differs exists Nil have r:
        "locate_and_create host module_spec old dc st =
           \<lparr>res_error = Success, res_module_sp = Some ?p1, res_old_module_sp = old,
            res_did_create = map_option (\<lambda>_. True) dc,
            res_shared = st\<lparr>modules := (modules st)(?p1 := ?m1), next_module := ?p1 + 1,
                           g_shared_module_list :=
                             (g_shared_module_list st)\<lparr>m_modules := m_modules (g_shared_module_list st) @ [?p1]\<rparr>\<rparr>\<rparr>"
        by (simp add: locate_and_create_def Let_def FindModules_filter m new_module_def Append_def)
      from p r have [simp]: "p = ?p1" by simp
      from pu r have "mod_uuid ?m1 = Some u" by simp
      from filter_append_new [OF Nil this, of ?p1] r show ?thesis by simp
    next
      case False
      with u differs exists Nil have
        "res_error (locate_and_create host module_spec old dc st) \<noteq> Success"
        by (simp add: locate_and_create_def Let_def FindModules_filter m new_module_def)
      with ok show ?thesis by simp
    qed
  qed
qed

lemma create_from_spec_first_match:
  assumes u: "spec_uuid module_spec = Some u"
    and none: "filter (\<lambda>q. mod_uuid (modules st q) = Some u) (m_modules (g_shared_module_list st)) = []"
    and ok: "res_error (create_from_spec host module_spec old dc st) = Success"
    and p: "res_module_sp (create_from_spec host module_spec old dc st) = Some p"
    and pu: "mod_uuid (modules (res_shared (create_from_spec host module_spec old dc st)) p) = Some u"
  shows "\<exists>cs. filter (\<lambda>q. mod_uuid (modules (res_shared (create_from_spec host module_spec old dc st)) q) = Some u)
           (m_modules (g_shared_module_list (res_shared (create_from_spec host module_spec old dc st)))) = p # cs"
proof -
  let ?p0 = "next_module st"
  let ?m0 = "new_Module host module_spec"
  let ?st1 = "st\<lparr>modules := (modules st)(?p0 := ?m0), next_module := ?p0 + 1\<rparr>"
  show ?thesis
  proof (cases "mod_object_file ?m0 \<and> mod_uuid ?m0 = Some u")
    case True
    with u have r:
      "create_from_spec host module_spec old dc st =
         \<lparr>res_error = Success, res_module_sp = Some ?p0, res_old_module_sp = old,
          res_did_create = map_option (\<lambda>_. True) dc,
          res_shared = ?st1\<lparr>g_shared_module_list :=
               (g_shared_module_list st)\<lparr>m_modules := m_modules (g_shared_module_list st) @ [?p0]\<rparr>\<rparr>\<rparr>"
      by (simp add: create_from_spec_def new_module_def Append_def)
    from p r have [simp]: "p = ?p0" by simp
    from True have "mod_uuid ?m0 = Some u" by simp
    from filter_append_new [OF none this, of ?p0] r show ?thesis by simp
  next
    case False
    with u have r: "create_from_spec host module_spec old dc st = locate_and_create host module_spec old dc ?st1"
      by (auto simp: create_from_spec_def new_module_def)
    from locate_and_create_first_match [OF u, of host old dc ?st1 p] ok p pu
    show ?thesis unfolding r by simp
  qed
qed

text \<open>
  Where a call with \<open>always_create\<close> false returns without error a module that carries
  the identifier of the spec, the next call with the same spec returns the same module,
  sets the did-create output to false, and leaves the shared list as it is.
\<close>

lemma GetSharedModule_twice:
  assumes u: "spec_uuid module_spec = Some u"
    and ok: "res_error (GetSharedModule host module_spec old1 dc1 False st) = Success"
    and p: "res_module_sp (GetSharedModule host module_spec old1 dc1 False st) = Some p"
    and pu: "mod_uuid (modules (res_shared (GetSharedModule host module_spec old1 dc1 False st)) p) = Some u"
  shows "GetSharedModule host module_spec old2 dc2 False
           (res_shared (GetSharedModule host module_spec old1 dc1 False st)) =
         \<lparr>res_error = Success, res_module_sp = Some p,
          res_old_module_sp = map_option (\<lambda>_. None) old2,
          res_did_create = map_option (\<lambda>_. False) dc2,
          res_shared = res_shared (GetSharedModule host module_spec old1 dc1 False st)\<rparr>"
proof -
  let ?r1 = "GetSharedModule host module_spec old1 dc1 False st"
  have "\<exists>cs. filter (\<lambda>q. mod_uuid (modules (res_shared ?r1) q) = Some u)
           (m_modules (g_shared_module_list (res_shared ?r1))) = p # cs"
  proof (cases "filter (\<lambda>q. mod_uuid (modules st q) = Some u) (m_modules (g_shared_module_list st))")
    case (Cons c cs)
    from GetSharedModule_uuid_hit [OF u Cons, of host old1 dc1] p Cons
    show ?thesis by simp
  next
    case Nil
    note miss = GetSharedModule_uuid_miss [OF u Nil, of host old1 dc1]
    from create_from_spec_first_match [OF u Nil, of host "map_option (\<lambda>_. None) old1"
        "map_option (\<lambda>_. False) dc1" p] ok p pu
    show ?thesis unfolding miss by simp
  qed
  then obtain cs where "filter (\<lambda>q. mod_uuid (modules (res_shared ?r1) q) = Some u)
           (m_modules (g_shared_module_list (res_shared ?r1))) = p # cs" ..
  from GetSharedModule_uuid_hit [OF u this] show ?thesis .
qed

lemma GetSharedModule_twice_example:
  "spec_uuid ls_uuid_spec = Some 7
   \<and> res_error (GetSharedModule ls_host ls_uuid_spec (Some None) (Some False) False empty_cache) = Success
   \<and> res_module_sp (GetSharedModule ls_host ls_uuid_spec (Some None) (Some False) False empty_cache) = Some 0
   \<and> res_did_create (GetSharedModule ls_host ls_uuid_spec (Some None) (Some False) False empty_cache) = Some True
   \<and> res_module_sp (GetSharedModule ls_host ls_uuid_spec (Some None) (Some True) False
        (res_shared (GetSharedModule ls_host ls_uuid_spec (Some None) (Some False) False empty_cache))) = Some 0
   \<and> res_did_create (GetSharedModule ls_host ls_uuid_spec (Some None) (Some True) False
        (res_shared (GetSharedModule ls_host ls_uuid_spec (Some None) (Some False) False empty_cache))) = Some False"
proof -
  let ?r1 = "GetSharedModule ls_host ls_uuid_spec (Some None) (Some False) False empty_cache"
  have u: "spec_uuid ls_uuid_spec = Some 7" by (simp add: fixture_defs)
  have ok: "res_error ?r1 = Success" by (simp add: fixture_defs GetSharedModule_defs)
  have p: "res_module_sp ?r1 = Some 0" by (simp add: fixture_defs GetSharedModule_defs)
  have d: "res_did_create ?r1 = Some True" by (simp add: fixture_defs GetSharedModule_defs)
  have pu: "mod_uuid (modules (res_shared ?r1) 0) = Some 7"
    by (simp add: fixture_defs GetSharedModule_defs)
  from GetSharedModule_twice [OF u ok p pu, of "Some None" "Some True"] u ok p d
  show ?thesis by simp
qed

text \<open>
  C5. The spec carries identifier 7 and a path where nothing opens;
  \<open>LocateExecutableObjectFile\<close> answers \<open>/bin/ls\<close>, which opens as an object file with
  identifier 8; the shared list is empty. The first call returns, without error, the
  module built from \<open>/bin/ls\<close> (address 1) and caches it: lines 742-751 do not compare
  its identifier with the spec's, as lines 650-653 do for the module built from the
  spec's own path. The search by identifier of the second call does not find it, and
  the second call builds another module (address 3) and sets did-create to true.
\<close>

theorem GetSharedModule_relocated_twice:
  "spec_uuid moved_spec = Some 7
   \<and> res_error (GetSharedModule moved_host moved_spec (Some None) (Some False) False empty_cache) = Success
   \<and> res_module_sp (GetSharedModule moved_host moved_spec (Some None) (Some False) False empty_cache) = Some 1
   \<and> res_error (GetSharedModule moved_host moved_spec (Some None) (Some False) False
        (res_shared (GetSharedModule moved_host moved_spec (Some None) (Some False) False empty_cache))) = Success
   \<and> res_module_sp (GetSharedModule moved_host moved_spec (Some None) (Some False) False
        (res_shared (GetSharedModule moved_host moved_spec (Some None) (Some False) False empty_cache))) = Some 3
   \<and> res_did_create (GetSharedModule moved_host moved_spec (Some None) (Some False) False
        (res_shared (GetSharedModule moved_host moved_spec (Some None) (Some False) False empty_cache))) = Some True"
  by (simp add: fixture_defs GetSharedModule_defs)

end
